theory Spec2Isabelle
  imports Main "HOL-Library.Word"
begin

section \<open>JavaScript strings and the built-ins the program calls\<close>

text \<open>
  A JavaScript string is a sequence of UTF-16 code units; \<open>length\<close>, \<open>split\<close>,
  \<open>replace\<close> with a regular expression that has no \<open>u\<close> flag, \<open>trim\<close> and
  \<open>includes\<close> all work on code units. A literal of the source is written
  \<open>js ''...''\<close>.
\<close>

type_synonym codeunit = "16 word"
type_synonym jsstring = "codeunit list"

definition js :: "string \<Rightarrow> jsstring" where
  "js s = map of_char s"

abbreviation LF :: codeunit where "LF \<equiv> 0x0A"
abbreviation CR :: codeunit where "CR \<equiv> 0x0D"
abbreviation DQUOTE :: codeunit where "DQUOTE \<equiv> 0x22"
abbreviation COMMA :: codeunit where "COMMA \<equiv> 0x2C"

text \<open>The character classes of the two regular expressions of \<open>App.tsx\<close>.\<close>

definition isLowerAZ :: "codeunit \<Rightarrow> bool" where
  "isLowerAZ c = (0x61 \<le> c \<and> c \<le> 0x7A)"

definition isUpperAZ :: "codeunit \<Rightarrow> bool" where
  "isUpperAZ c = (0x41 \<le> c \<and> c \<le> 0x5A)"

definition isDigit :: "codeunit \<Rightarrow> bool" where
  "isDigit c = (0x30 \<le> c \<and> c \<le> 0x39)"

text \<open>\<open>[a-z0-9._]\<close>, the class whose complement \<open>cleanHandleToken\<close> removes.\<close>

definition isHandleChar :: "codeunit \<Rightarrow> bool" where
  "isHandleChar c = (isLowerAZ c \<or> isDigit c \<or> c = 0x2E \<or> c = 0x5F)"

text \<open>\<open>[a-zA-Z0-9._]\<close>, the class whose complement separates tokens.\<close>

definition isTokenChar :: "codeunit \<Rightarrow> bool" where
  "isTokenChar c = (isLowerAZ c \<or> isUpperAZ c \<or> isDigit c \<or> c = 0x2E \<or> c = 0x5F)"

text \<open>
  \<open>String.prototype.toLowerCase\<close>. The Basic Latin capitals move to their small
  letters. Two code units outside Basic Latin have a lower-case form that contains a
  Basic Latin letter: U+0130 (capital I with dot above) becomes \<open>i\<close> followed by
  U+0307, and U+212A (the Kelvin sign) becomes \<open>k\<close>. Every other code unit is left
  as it is here: its lower-case form, like itself, has no code unit of \<open>[a-z0-9._]\<close>,
  and the only caller deletes all such code units right after.
\<close>

definition lowerUnit :: "codeunit \<Rightarrow> jsstring" where
  "lowerUnit c =
     (if isUpperAZ c then [c + 0x20]
      else if c = 0x130 then [0x69, 0x307]
      else if c = 0x212A then [0x6B]
      else [c])"

definition toLowerCase :: "jsstring \<Rightarrow> jsstring" where
  "toLowerCase s = concat (map lowerUnit s)"

text \<open>
  \<open>String.prototype.trim\<close> removes white space and line terminators from both ends:
  TAB, LF, VT, FF, CR, SPACE, NBSP, U+1680, U+2000 to U+200A, U+2028, U+2029, U+202F,
  U+205F, U+3000 and U+FEFF.
\<close>

definition isWhiteSpace :: "codeunit \<Rightarrow> bool" where
  "isWhiteSpace c =
     (c \<in> {0x09, 0x0A, 0x0B, 0x0C, 0x0D, 0x20, 0xA0, 0x1680, 0x2028, 0x2029,
            0x202F, 0x205F, 0x3000, 0xFEFF}
      \<or> (0x2000 \<le> c \<and> c \<le> 0x200A))"

definition trim :: "jsstring \<Rightarrow> jsstring" where
  "trim s = rev (dropWhile isWhiteSpace (rev (dropWhile isWhiteSpace s)))"

text \<open>
  \<open>raw.split(/\r?\n/)\<close>: every LF ends a piece, and takes a CR that stands right
  before it along. The empty string splits into one empty piece.
\<close>

fun consHead :: "'a \<Rightarrow> 'a list list \<Rightarrow> 'a list list" where
  "consHead c [] = [[c]]"
| "consHead c (l # ls) = (c # l) # ls"

fun splitLines :: "jsstring \<Rightarrow> jsstring list" where
  "splitLines [] = [[]]"
| "splitLines [c] = (if c = LF then [[], []] else [[c]])"
| "splitLines (c # d # ds) =
     (if c = LF then [] # splitLines (d # ds)
      else if c = CR \<and> d = LF then [] # splitLines ds
      else consHead c (splitLines (d # ds)))"

text \<open>
  \<open>line.split(/[^a-zA-Z0-9._]+/)\<close>: a maximal run of code units outside the token
  class is one separator.
\<close>

function splitTokens :: "jsstring \<Rightarrow> jsstring list" where
  "splitTokens [] = [[]]"
| "splitTokens (c # cs) =
     (if isTokenChar c then consHead c (splitTokens cs)
      else [] # splitTokens (dropWhile (\<lambda>d. \<not> isTokenChar d) cs))"
  by pat_completeness auto
termination
  by (relation "measure length") (simp_all add: less_Suc_eq_le length_dropWhile_le)

text \<open>\<open>Array.prototype.join\<close>.\<close>

fun joinWith :: "'a list \<Rightarrow> 'a list list \<Rightarrow> 'a list" where
  "joinWith sep [] = []"
| "joinWith sep [x] = x"
| "joinWith sep (x # y # ys) = x @ sep @ joinWith sep (y # ys)"

text \<open>\<open>String.prototype.includes\<close>: the argument occurs as a contiguous run.\<close>

fun startsWith :: "'a list \<Rightarrow> 'a list \<Rightarrow> bool" where
  "startsWith s [] = True"
| "startsWith [] (k # ks) = False"
| "startsWith (c # cs) (k # ks) = (c = k \<and> startsWith cs ks)"

fun includes_js :: "'a list \<Rightarrow> 'a list \<Rightarrow> bool" where
  "includes_js [] k = (k = [])"
| "includes_js (c # cs) k = (startsWith (c # cs) k \<or> includes_js cs k)"

text \<open>
  A \<open>Set<string>\<close> keeps its members in insertion order, each once: a list without
  duplicates. \<open>forEach\<close> visits the members in that order.
\<close>

type_synonym handleSet = "jsstring list"

definition Set_has :: "handleSet \<Rightarrow> jsstring \<Rightarrow> bool" where
  "Set_has s x = (x \<in> set s)"

definition Set_add :: "handleSet \<Rightarrow> jsstring \<Rightarrow> handleSet" where
  "Set_add s x = (if Set_has s x then s else s @ [x])"


section \<open>The handle extractor\<close>

text \<open>
  \<open>cleanHandleToken\<close> returns the cleaned string or \<open>null\<close>, here \<open>None\<close>. Its
  argument is always a string, for which \<open>token || ''\<close> is the string itself.
\<close>

definition cleanHandleToken :: "jsstring \<Rightarrow> jsstring option" where
  "cleanHandleToken token =
     (let cleaned = filter isHandleChar (toLowerCase token)
      in if 3 \<le> length cleaned \<and> length cleaned \<le> 30 then Some cleaned else None)"

text \<open>
  \<open>line.split(/[^a-zA-Z0-9._]+/)[0] || ''\<close>: the first piece, and the empty string when
  there is none.
\<close>

definition firstToken :: "jsstring \<Rightarrow> jsstring" where
  "firstToken line = (case splitTokens line of [] \<Rightarrow> [] | t # ts \<Rightarrow> t)"

text \<open>
  The body of the \<open>forEach\<close> callback of \<open>extractHandles\<close>, on the set \<open>out\<close>. A
  string that \<open>cleanHandleToken\<close> returns has at least 3 code units, so the tests
  \<open>if (whole)\<close> and \<open>if (cleaned)\<close> succeed exactly when the result is not \<open>null\<close>;
  the \<open>return\<close> after \<open>out.add(whole)\<close> ends the callback for this line.
\<close>

definition processLine :: "handleSet \<Rightarrow> jsstring \<Rightarrow> handleSet" where
  "processLine out line =
     (case cleanHandleToken line of
        Some whole \<Rightarrow> Set_add out whole
      | None \<Rightarrow>
          (case cleanHandleToken (firstToken line) of
             Some cleaned \<Rightarrow> Set_add out cleaned
           | None \<Rightarrow> out))"

text \<open>\<open>raw.split(/\r?\n/).map(l => l.trim()).filter(Boolean)\<close>\<close>

definition trimmedLines :: "jsstring \<Rightarrow> jsstring list" where
  "trimmedLines raw = filter (\<lambda>l. l \<noteq> []) (map trim (splitLines raw))"

definition extractHandles :: "jsstring \<Rightarrow> handleSet" where
  "extractHandles raw = foldl processLine [] (trimmedLines raw)"


section \<open>The comparator\<close>

text \<open>The three loops of the \<open>useMemo\<close> callback of \<open>App\<close>.\<close>

definition nonFollowersOf :: "handleSet \<Rightarrow> handleSet \<Rightarrow> handleSet" where
  "nonFollowersOf fing fers =
     foldl (\<lambda>acc h. if \<not> Set_has fers h then Set_add acc h else acc) [] fing"

definition followersOnlyOf :: "handleSet \<Rightarrow> handleSet \<Rightarrow> handleSet" where
  "followersOnlyOf fing fers =
     foldl (\<lambda>acc h. if \<not> Set_has fing h then Set_add acc h else acc) [] fers"

definition mutualsOf :: "handleSet \<Rightarrow> handleSet \<Rightarrow> handleSet" where
  "mutualsOf fing fers =
     foldl (\<lambda>acc h. if Set_has fers h then Set_add acc h else acc) [] fing"


section \<open>Presentation: sorting, the organisation filter, the CSV export\<close>

text \<open>
  \<open>toSorted\<close> copies its argument and sorts the copy with
  \<open>(x, y) => x.localeCompare(y)\<close>. The collation is the host's, so the comparator is
  a parameter \<open>cmp\<close>; the sort is stable, and is written as a stable insertion sort.
\<close>

fun insertSorted :: "('a \<Rightarrow> 'a \<Rightarrow> int) \<Rightarrow> 'a \<Rightarrow> 'a list \<Rightarrow> 'a list" where
  "insertSorted cmp x [] = [x]"
| "insertSorted cmp x (y # ys) =
     (if cmp x y < 0 then x # y # ys else y # insertSorted cmp x ys)"

definition toSorted :: "('a \<Rightarrow> 'a \<Rightarrow> int) \<Rightarrow> 'a list \<Rightarrow> 'a list" where
  "toSorted cmp arr = foldl (\<lambda>acc x. insertSorted cmp x acc) [] arr"

definition orgHints :: "jsstring list" where
  "orgHints = map js
     [''official'', ''inc'', ''club'', ''school'', ''university'', ''college'', ''gov'',
      ''news'', ''store'', ''shop'', ''brand'', ''team'',
      ''miami'', ''umiami'', ''herbert'', ''alumni'', ''football'', ''soccer'', ''hockey'',
      ''baseball'', ''barstool'', ''daily'',
      ''studio'', ''photography'', ''kitchen'', ''scuba'', ''kite'', ''freediving'',
      ''buildon'', ''bestparties'', ''cornerdeli'', ''ifc'']"

definition looksLikeOrg :: "jsstring \<Rightarrow> bool" where
  "looksLikeOrg h = list_ex (\<lambda>k. includes_js h k) orgHints"

definition filterList :: "bool \<Rightarrow> jsstring list \<Rightarrow> jsstring list" where
  "filterList filterPeopleOnly list =
     (if filterPeopleOnly then filter (\<lambda>h. \<not> looksLikeOrg h) list else list)"

text \<open>
  What one rendering of \<open>App\<close> computes from its state: the two texts and the toggle.
\<close>

record view =
  following :: handleSet
  followers :: handleSet
  nonFollowers :: handleSet
  followersOnly :: handleSet
  mutuals :: handleSet
  followingArr :: "jsstring list"
  followersArr :: "jsstring list"
  nonFollowersArr :: "jsstring list"
  followersOnlyArr :: "jsstring list"
  mutualsArr :: "jsstring list"

definition App ::
  "(jsstring \<Rightarrow> jsstring \<Rightarrow> int) \<Rightarrow> jsstring \<Rightarrow> jsstring \<Rightarrow> bool \<Rightarrow> view" where
  "App cmp followingText followersText filterPeopleOnly =
     (let fing = extractHandles followingText;
          fers = extractHandles followersText;
          nonF = nonFollowersOf fing fers;
          fersOnly = followersOnlyOf fing fers;
          mut = mutualsOf fing fers
      in \<lparr> following = fing, followers = fers,
           nonFollowers = nonF, followersOnly = fersOnly, mutuals = mut,
           followingArr = toSorted cmp fing,
           followersArr = toSorted cmp fers,
           nonFollowersArr = filterList filterPeopleOnly (toSorted cmp nonF),
           followersOnlyArr = filterList filterPeopleOnly (toSorted cmp fersOnly),
           mutualsArr = filterList filterPeopleOnly (toSorted cmp mut) \<rparr>)"

text \<open>\<open>arr[i] ?? ''\<close>: reading past the end of an array gives \<open>undefined\<close>.\<close>

definition at_or_empty :: "jsstring list \<Rightarrow> nat \<Rightarrow> jsstring" where
  "at_or_empty arr i = (if i < length arr then arr ! i else [])"

definition csvHeader :: "jsstring list" where
  "csvHeader = [js ''you_follow_but_they_dont_follow_you'',
                js ''they_follow_you_but_you_dont_follow'',
                js ''mutuals'']"

text \<open>The rows that \<open>exportCSV\<close> builds from the three displayed arrays.\<close>

definition exportRows ::
  "jsstring list \<Rightarrow> jsstring list \<Rightarrow> jsstring list \<Rightarrow> jsstring list list" where
  "exportRows nonF fersOnly mut =
     (let maxLen = max (length nonF) (max (length fersOnly) (length mut))
      in csvHeader #
         map (\<lambda>i. [at_or_empty nonF i, at_or_empty fersOnly i, at_or_empty mut i])
             [0..<maxLen])"

text \<open>\<open>c.replace(/"/g, '""')\<close> and the quoted field of \<open>downloadCSV\<close>.\<close>

definition doubleQuotes :: "jsstring \<Rightarrow> jsstring" where
  "doubleQuotes c = concat (map (\<lambda>u. if u = DQUOTE then [DQUOTE, DQUOTE] else [u]) c)"

definition csvField :: "jsstring \<Rightarrow> jsstring" where
  "csvField c = [DQUOTE] @ doubleQuotes c @ [DQUOTE]"

text \<open>The text that \<open>downloadCSV\<close> puts into the file.\<close>

definition downloadCSV :: "jsstring list list \<Rightarrow> jsstring" where
  "downloadCSV rows = joinWith [LF] (map (\<lambda>r. joinWith [COMMA] (map csvField r)) rows)"

definition exportCSV :: "view \<Rightarrow> jsstring" where
  "exportCSV v = downloadCSV (exportRows (nonFollowersArr v) (followersOnlyArr v) (mutualsArr v))"


section \<open>Notions the properties are stated with\<close>

text \<open>A handle in the sense of the data model: it matches \<open>^[a-z0-9._]{3,30}$\<close>.\<close>

definition isHandle :: "jsstring \<Rightarrow> bool" where
  "isHandle h = (3 \<le> length h \<and> length h \<le> 30 \<and> list_all isHandleChar h)"

text \<open>What one line contributes to the set, if anything.\<close>

definition lineHandle :: "jsstring \<Rightarrow> jsstring option" where
  "lineHandle line =
     (case cleanHandleToken line of
        Some whole \<Rightarrow> Some whole
      | None \<Rightarrow> cleanHandleToken (firstToken line))"

text \<open>Removing one CR from the end of a piece, as the separator \<open>\r\n\<close> does.\<close>

definition chompCR :: "jsstring \<Rightarrow> jsstring" where
  "chompCR l = (if l \<noteq> [] \<and> last l = CR then butlast l else l)"

fun mapLast :: "('a \<Rightarrow> 'a) \<Rightarrow> 'a list \<Rightarrow> 'a list" where
  "mapLast f [] = []"
| "mapLast f [x] = [f x]"
| "mapLast f (x # y # ys) = x # mapLast f (y # ys)"


section \<open>Sets as duplicate-free lists\<close>

lemma set_Set_add: "set (Set_add s x) = insert x (set s)"
  by (auto simp: Set_add_def Set_has_def)

lemma distinct_Set_add: "distinct s \<Longrightarrow> distinct (Set_add s x)"
  by (simp add: Set_add_def Set_has_def)

lemma length_Set_add: "length (Set_add s x) \<le> Suc (length s)"
  by (simp add: Set_add_def)

lemma set_foldl_add_if:
  "set (foldl (\<lambda>acc h. if P h then Set_add acc h else acc) acc0 xs)
     = set acc0 \<union> {h \<in> set xs. P h}"
  by (induction xs arbitrary: acc0) (auto simp: set_Set_add)

lemmas char_class_defs =
  isHandleChar_def isTokenChar_def isLowerAZ_def isUpperAZ_def isDigit_def isWhiteSpace_def

lemmas extract_defs =
  extractHandles_def trimmedLines_def trim_def processLine_def firstToken_def
  cleanHandleToken_def toLowerCase_def lowerUnit_def Set_add_def Set_has_def js_def


section \<open>The character classes, letter by letter\<close>

text \<open>The ranges of code units above are the letters the regular expressions name.\<close>

lemma range_enum:
  fixes c :: codeunit
  assumes hi: "hi < 65536" and le: "lo \<le> hi"
  shows "(of_nat lo \<le> c \<and> c \<le> of_nat hi) \<longleftrightarrow> c \<in> set (map of_nat [lo..<Suc hi])"
proof
  have u1: "unat (of_nat lo :: codeunit) = lo" using hi le by (simp add: unat_of_nat)
  have u2: "unat (of_nat hi :: codeunit) = hi" using hi by (simp add: unat_of_nat)
  assume "of_nat lo \<le> c \<and> c \<le> of_nat hi"
  then have "lo \<le> unat c \<and> unat c \<le> hi"
    unfolding word_le_nat_alt u1 u2 by simp
  then have "unat c \<in> set [lo..<Suc hi]" by auto
  then have "of_nat (unat c) \<in> set (map of_nat [lo..<Suc hi] :: codeunit list)"
    by (simp only: set_map) (rule imageI)
  then show "c \<in> set (map of_nat [lo..<Suc hi])" by simp
next
  have u1: "unat (of_nat lo :: codeunit) = lo" using hi le by (simp add: unat_of_nat)
  have u2: "unat (of_nat hi :: codeunit) = hi" using hi by (simp add: unat_of_nat)
  assume "c \<in> set (map of_nat [lo..<Suc hi])"
  then obtain k where k: "c = of_nat k" "lo \<le> k" "k \<le> hi" by auto
  have u3: "unat (of_nat k :: codeunit) = k" using hi k by (simp add: unat_of_nat)
  show "of_nat lo \<le> c \<and> c \<le> of_nat hi"
    unfolding word_le_nat_alt k(1) u1 u2 u3 using k by simp
qed

lemma isLowerAZ_alphabet: "isLowerAZ c \<longleftrightarrow> c \<in> set (js ''abcdefghijklmnopqrstuvwxyz'')"
  using range_enum [of 122 97 c]
  by (simp add: isLowerAZ_def js_def upt_rec)

lemma isUpperAZ_alphabet: "isUpperAZ c \<longleftrightarrow> c \<in> set (js ''ABCDEFGHIJKLMNOPQRSTUVWXYZ'')"
  using range_enum [of 90 65 c]
  by (simp add: isUpperAZ_def js_def upt_rec)

lemma isDigit_alphabet: "isDigit c \<longleftrightarrow> c \<in> set (js ''0123456789'')"
  using range_enum [of 57 48 c]
  by (simp add: isDigit_def js_def upt_rec)

lemma isTokenChar_alphabet:
  "isTokenChar c \<longleftrightarrow>
     c \<in> set (js ''abcdefghijklmnopqrstuvwxyzABCDEFGHIJKLMNOPQRSTUVWXYZ0123456789._'')"
proof -
  have "js ''abcdefghijklmnopqrstuvwxyzABCDEFGHIJKLMNOPQRSTUVWXYZ0123456789._''
          = js ''abcdefghijklmnopqrstuvwxyz'' @ js ''ABCDEFGHIJKLMNOPQRSTUVWXYZ''
            @ js ''0123456789'' @ js ''._''"
    by (simp add: js_def)
  then show ?thesis
    by (auto simp: isTokenChar_def isLowerAZ_alphabet isUpperAZ_alphabet isDigit_alphabet js_def)
qed

lemma isHandleChar_alphabet:
  "isHandleChar c \<longleftrightarrow> c \<in> set (js ''abcdefghijklmnopqrstuvwxyz0123456789._'')"
proof -
  have "js ''abcdefghijklmnopqrstuvwxyz0123456789._''
          = js ''abcdefghijklmnopqrstuvwxyz'' @ js ''0123456789'' @ js ''._''"
    by (simp add: js_def)
  then show ?thesis
    by (auto simp: isHandleChar_def isLowerAZ_alphabet isDigit_alphabet js_def)
qed


section \<open>The comparator computes difference and intersection\<close>

lemma set_nonFollowersOf: "set (nonFollowersOf A B) = set A - set B"
  by (auto simp: nonFollowersOf_def set_foldl_add_if Set_has_def)

lemma set_followersOnlyOf: "set (followersOnlyOf A B) = set B - set A"
  by (auto simp: followersOnlyOf_def set_foldl_add_if Set_has_def)

lemma set_mutualsOf: "set (mutualsOf A B) = set A \<inter> set B"
  by (auto simp: mutualsOf_def set_foldl_add_if Set_has_def)

text \<open>
  Claim C2. For all handle sets \<open>A\<close> (Following) and \<open>B\<close> (Followers) the three outputs
  of the comparator are pairwise disjoint, non-followers and mutuals together are \<open>A\<close>,
  and followers-only and mutuals together are \<open>B\<close>.
\<close>

theorem comparator_partition:
  "set (nonFollowersOf A B) \<inter> set (followersOnlyOf A B) = {} \<and>
   set (nonFollowersOf A B) \<inter> set (mutualsOf A B) = {} \<and>
   set (followersOnlyOf A B) \<inter> set (mutualsOf A B) = {} \<and>
   set (nonFollowersOf A B) \<union> set (mutualsOf A B) = set A \<and>
   set (followersOnlyOf A B) \<union> set (mutualsOf A B) = set B"
  unfolding set_nonFollowersOf set_followersOnlyOf set_mutualsOf by blast

text \<open>
  Claim C3. Exchanging the two inputs leaves the set of mutuals as it is and turns
  followers-only into non-followers. The members of the mutuals are the same; their
  insertion order follows the first argument. Non-followers and exchanged followers-only
  agree in insertion order as well.
\<close>

theorem comparator_symmetry:
  "set (mutualsOf A B) = set (mutualsOf B A) \<and>
   nonFollowersOf A B = followersOnlyOf B A"
  by (simp add: set_mutualsOf Int_commute nonFollowersOf_def followersOnlyOf_def)


section \<open>The line with a display name before the handle\<close>

text \<open>
  Claim C5, as the specification states it: for the line \<open>John Doe | @john_doe_23\<close> the
  whole-line attempt fails and the extractor returns \<open>john\<close>. It does not: cleaning the
  whole line succeeds, and \<open>john\<close> is not in the result.
\<close>

theorem john_doe_line_counterexample:
  "cleanHandleToken (js ''John Doe | @john_doe_23'') \<noteq> None \<and>
   js ''john'' \<notin> set (extractHandles (js ''John Doe | @john_doe_23''))"
  by (simp add: extract_defs char_class_defs)

text \<open>
  Claim C5, amended. Cleaning the whole line \<open>John Doe | @john_doe_23\<close> gives
  \<open>johndoejohn_doe_23\<close>, which has 18 code units and so is a handle; the whole-line
  attempt succeeds and the extractor returns that one handle, neither \<open>john\<close> nor
  \<open>john_doe_23\<close>.
\<close>

theorem john_doe_line_whole:
  "cleanHandleToken (js ''John Doe | @john_doe_23'') = Some (js ''johndoejohn_doe_23'') \<and>
   length (js ''johndoejohn_doe_23'') = 18 \<and>
   extractHandles (js ''John Doe | @john_doe_23'') = [js ''johndoejohn_doe_23'']"
  by (simp add: extract_defs char_class_defs)


text \<open>
  The first token is taken when the cleaned whole line is too long: with a longer
  description after the handle, the same line gives \<open>john\<close>.
\<close>

lemma first_token_example:
  "length (filter isHandleChar (toLowerCase (js ''John Doe | @john_doe_23 likes long walks''))) = 32 \<and>
   extractHandles (js ''John Doe | @john_doe_23 likes long walks'') = [js ''john'']"
  by (simp add: extract_defs char_class_defs)


section \<open>What the extractor adds for one line\<close>

lemma lowerUnit_handleChar: "isHandleChar c \<Longrightarrow> lowerUnit c = [c]"
  unfolding lowerUnit_def char_class_defs
  by (auto simp: word_le_nat_alt)

lemma toLowerCase_handleChars: "list_all isHandleChar h \<Longrightarrow> toLowerCase h = h"
  by (induction h) (simp_all add: toLowerCase_def lowerUnit_handleChar)

lemma cleanHandleToken_Some_iff:
  "cleanHandleToken t = Some h \<longleftrightarrow>
     h = filter isHandleChar (toLowerCase t) \<and> 3 \<le> length h \<and> length h \<le> 30"
  by (auto simp: cleanHandleToken_def Let_def)

lemma cleanHandleToken_isHandle: "cleanHandleToken t = Some h \<Longrightarrow> isHandle h"
  by (auto simp: cleanHandleToken_Some_iff isHandle_def list_all_iff)

lemma processLine_lineHandle:
  "processLine out line = (case lineHandle line of None \<Rightarrow> out | Some h \<Rightarrow> Set_add out h)"
  by (simp add: processLine_def lineHandle_def split: option.splits)

lemma lineHandle_isHandle: "lineHandle line = Some h \<Longrightarrow> isHandle h"
  by (auto simp: lineHandle_def cleanHandleToken_isHandle split: option.splits)

lemma set_foldl_processLine:
  "set (foldl processLine out ls) = set out \<union> {h. \<exists>l \<in> set ls. lineHandle l = Some h}"
  by (induction ls arbitrary: out)
     (auto simp: processLine_lineHandle set_Set_add split: option.splits)

lemma set_extractHandles:
  "set (extractHandles raw) = {h. \<exists>l \<in> set (trimmedLines raw). lineHandle l = Some h}"
  by (simp add: extractHandles_def set_foldl_processLine)

lemma length_foldl_processLine:
  "length (foldl processLine out ls) \<le> length out + length ls"
proof (induction ls arbitrary: out)
  case Nil
  then show ?case by simp
next
  case (Cons l ls)
  have "length (processLine out l) \<le> Suc (length out)"
    using length_Set_add [of out] by (simp add: processLine_lineHandle split: option.splits)
  with Cons [of "processLine out l"] show ?case by simp
qed

lemma distinct_foldl_processLine:
  "distinct out \<Longrightarrow> distinct (foldl processLine out ls)"
  by (induction ls arbitrary: out)
     (simp_all add: processLine_lineHandle distinct_Set_add split: option.splits)


section \<open>Every extracted string is a handle\<close>

text \<open>
  Claim C1. Whatever the raw text, every member of the set that \<open>extractHandles\<close>
  returns matches \<open>^[a-z0-9._]{3,30}$\<close>: it has between 3 and 30 code units, each of
  them from \<open>[a-z0-9._]\<close>, and it is in lower case (lower-casing leaves it as it is).
\<close>

theorem extractHandles_handles:
  "h \<in> set (extractHandles raw) \<Longrightarrow>
     3 \<le> length h \<and> length h \<le> 30 \<and> list_all isHandleChar h \<and>
     set h \<subseteq> set (js ''abcdefghijklmnopqrstuvwxyz0123456789._'') \<and>
     toLowerCase h = h"
proof -
  assume "h \<in> set (extractHandles raw)"
  then obtain l where "lineHandle l = Some h"
    by (auto simp: set_extractHandles)
  then have v: "isHandle h" by (rule lineHandle_isHandle)
  then have "set h \<subseteq> set (js ''abcdefghijklmnopqrstuvwxyz0123456789._'')"
    by (auto simp: isHandle_def list_all_iff isHandleChar_alphabet)
  with v show ?thesis
    by (simp add: isHandle_def toLowerCase_handleChars)
qed

theorem extractHandles_handles_witness:
  "js ''bob'' \<in> set (extractHandles (js ''alice'' @ [LF] @ js ''BOB!!'' @ [LF] @ js ''c'')) \<and>
   length (js ''bob'') = 3 \<and> list_all isHandleChar (js ''bob'') \<and>
   set (js ''bob'') \<subseteq> set (js ''abcdefghijklmnopqrstuvwxyz0123456789._'') \<and>
   toLowerCase (js ''bob'') = js ''bob''"
proof -
  have mem: "js ''bob'' \<in> set (extractHandles (js ''alice'' @ [LF] @ js ''BOB!!'' @ [LF] @ js ''c''))"
    by (simp add: extract_defs char_class_defs)
  from extractHandles_handles [OF mem] mem show ?thesis
    by (simp add: js_def)
qed


section \<open>At most one handle per line\<close>

text \<open>
  Claim C10. The set that \<open>extractHandles\<close> returns has at most as many members as the
  text has lines that are non-empty after trimming. The list that represents the set
  has no duplicates, so its length is that number of members.
\<close>

theorem one_handle_per_line:
  "card (set (extractHandles raw)) \<le> length (trimmedLines raw) \<and>
   length (extractHandles raw) \<le> length (trimmedLines raw) \<and>
   distinct (extractHandles raw)"
  using length_foldl_processLine [of "[]" "trimmedLines raw"]
        card_length [of "extractHandles raw"]
        distinct_foldl_processLine [of "[]" "trimmedLines raw"]
  by (simp add: extractHandles_def)


section \<open>A whole line that cleans to a handle is never split\<close>

text \<open>
  Claim C6. Let \<open>w\<close> be a trimmed non-empty line, lower-cased and stripped of every
  code unit outside \<open>[a-z0-9._]\<close>. When \<open>w\<close> has between 3 and 30 code units, the
  callback adds exactly \<open>w\<close> for that line, whatever the first token of the line is:
  \<open>w\<close> is in the result for every text with that line, and it is the whole result for a
  text whose only line it is.
\<close>

theorem whole_line_short_circuits:
  assumes "w = filter isHandleChar (toLowerCase line)"
      and "3 \<le> length w" and "length w \<le> 30"
  shows "processLine out line = Set_add out w \<and>
         (line \<in> set (trimmedLines raw) \<longrightarrow> w \<in> set (extractHandles raw)) \<and>
         (trimmedLines raw = [line] \<longrightarrow> extractHandles raw = [w])"
proof -
  from assms have c: "cleanHandleToken line = Some w"
    by (simp add: cleanHandleToken_Some_iff)
  then have p: "processLine out line = Set_add out w" for out
    by (simp add: processLine_def)
  from c have "lineHandle line = Some w"
    by (simp add: lineHandle_def)
  then have "line \<in> set (trimmedLines raw) \<longrightarrow> w \<in> set (extractHandles raw)"
    by (auto simp: set_extractHandles)
  moreover have "trimmedLines raw = [line] \<longrightarrow> extractHandles raw = [w]"
    by (simp add: extractHandles_def p Set_add_def Set_has_def)
  ultimately show ?thesis using p by simp
qed

theorem whole_line_short_circuits_witness:
  "js ''bobsmith'' = filter isHandleChar (toLowerCase (js ''bob smith'')) \<and>
   length (js ''bobsmith'') = 8 \<and>
   trimmedLines (js '' bob smith '') = [js ''bob smith''] \<and>
   cleanHandleToken (firstToken (js ''bob smith'')) = Some (js ''bob'') \<and>
   processLine [] (js ''bob smith'') = [js ''bobsmith''] \<and>
   js ''bobsmith'' \<in> set (extractHandles (js '' bob smith '')) \<and>
   extractHandles (js '' bob smith '') = [js ''bobsmith'']"
proof -
  have w: "js ''bobsmith'' = filter isHandleChar (toLowerCase (js ''bob smith''))"
    by (simp add: extract_defs char_class_defs)
  have n: "length (js ''bobsmith'') = 8"
    by (simp add: js_def)
  have l: "trimmedLines (js '' bob smith '') = [js ''bob smith'']"
    by (simp add: extract_defs char_class_defs)
  have f: "cleanHandleToken (firstToken (js ''bob smith'')) = Some (js ''bob'')"
    by (simp add: extract_defs char_class_defs)
  from whole_line_short_circuits [OF w, of "[]" "js '' bob smith ''"] n l w f
  show ?thesis
    by (simp add: Set_add_def Set_has_def)
qed


section \<open>Splitting a text at a line feed\<close>

lemma splitLines_nonempty [simp]: "splitLines s \<noteq> []"
  by (induction s rule: splitLines.induct) (auto split: list.splits elim: consHead.elims)

lemma consHead_nonempty [simp]: "consHead c ls \<noteq> []"
  by (cases ls) simp_all

lemma splitLines_LF: "splitLines (LF # b) = [] # splitLines b"
  by (cases b) simp_all

lemma splitLines_single_empty: "splitLines s = [[]] \<Longrightarrow> s = []"
  by (induction s rule: splitLines.induct) (auto split: if_splits elim: consHead.elims)

lemma chompCR_Cons: "l \<noteq> [] \<Longrightarrow> chompCR (c # l) = c # chompCR l"
  by (simp add: chompCR_def)

lemma mapLast_Cons: "ls \<noteq> [] \<Longrightarrow> mapLast f (x # ls) = x # mapLast f ls"
  by (cases ls) simp_all

lemma mapLast_consHead:
  "ls \<noteq> [] \<Longrightarrow> ls \<noteq> [[]] \<Longrightarrow> mapLast chompCR (consHead c ls) = consHead c (mapLast chompCR ls)"
proof (cases ls)
  case Nil
  assume "ls \<noteq> []"
  with Nil show ?thesis by simp
next
  case (Cons l ms)
  assume "ls \<noteq> [[]]"
  with Cons show ?thesis
    by (cases ms) (simp_all add: chompCR_Cons)
qed

lemma consHead_append: "ls \<noteq> [] \<Longrightarrow> consHead c (ls @ ms) = consHead c ls @ ms"
  by (cases ls) simp_all

lemma mapLast_nonempty [simp]: "mapLast f ls = [] \<longleftrightarrow> ls = []"
  by (induction f ls rule: mapLast.induct) simp_all

lemma splitLines_append_LF:
  "splitLines (a @ LF # b) = mapLast chompCR (splitLines a) @ splitLines b"
proof (induction a rule: splitLines.induct)
  case 1
  show ?case by (simp add: splitLines_LF chompCR_def)
next
  case (2 c)
  show ?case by (simp add: splitLines_LF chompCR_def)
next
  case (3 c d ds)
  show ?case
  proof (cases "c = LF")
    case True
    with 3 show ?thesis by (simp add: mapLast_Cons)
  next
    case nLF: False
    show ?thesis
    proof (cases "c = CR \<and> d = LF")
      case True
      with 3 nLF show ?thesis by (simp add: mapLast_Cons)
    next
      case False
      have ne: "splitLines (d # ds) \<noteq> [[]]"
        using splitLines_single_empty [of "d # ds"] by auto
      from False have "splitLines (c # d # ds @ LF # b) = consHead c (splitLines (d # ds @ LF # b))"
        using nLF by auto
      also have "\<dots> = consHead c (mapLast chompCR (splitLines (d # ds)) @ splitLines b)"
        using 3(3) False nLF by auto
      also have "\<dots> = mapLast chompCR (consHead c (splitLines (d # ds))) @ splitLines b"
        by (simp add: mapLast_consHead ne consHead_append)
      also have "consHead c (splitLines (d # ds)) = splitLines (c # d # ds)"
        using False nLF by auto
      finally show ?thesis by simp
    qed
  qed
qed

lemma isWhiteSpace_CR: "isWhiteSpace CR"
  by (simp add: isWhiteSpace_def)

lemma dropWhile_all: "\<forall>x\<in>set xs. P x \<Longrightarrow> dropWhile P xs = []"
  by simp

lemma trim_snoc_ws: "isWhiteSpace c \<Longrightarrow> trim (l @ [c]) = trim l"
  by (cases "\<forall>x\<in>set l. isWhiteSpace x")
     (simp_all add: trim_def dropWhile_append dropWhile_all del: dropWhile_eq_Nil_conv)

lemma trim_chompCR: "trim (chompCR l) = trim l"
proof (cases "l \<noteq> [] \<and> last l = CR")
  case True
  then have "l = butlast l @ [CR]" by (metis append_butlast_last_id)
  then have "trim l = trim (butlast l)"
    using trim_snoc_ws [OF isWhiteSpace_CR, of "butlast l"] by simp
  with True show ?thesis by (simp add: chompCR_def)
next
  case False
  then show ?thesis by (auto simp: chompCR_def)
qed

lemma map_trim_mapLast: "map trim (mapLast chompCR ls) = map trim ls"
  by (induction chompCR ls rule: mapLast.induct) (simp_all add: trim_chompCR)

lemma trimmedLines_append_LF:
  "trimmedLines (a @ LF # b) = trimmedLines a @ trimmedLines b"
  by (simp add: trimmedLines_def splitLines_append_LF map_trim_mapLast)

lemma set_extractHandles_append_LF:
  "set (extractHandles (a @ LF # b)) = set (extractHandles a) \<union> set (extractHandles b)"
  by (auto simp: set_extractHandles trimmedLines_append_LF)

lemma extractHandles_append_LF:
  "extractHandles (a @ LF # b) = foldl processLine (extractHandles a) (trimmedLines b)"
  by (simp add: extractHandles_def trimmedLines_append_LF)

text \<open>
  Claim C9. Extraction turns joining two texts with a line feed into union:
  \<open>extractHandles (a + "\n" + b)\<close> has the members of \<open>extractHandles a\<close> and those of
  \<open>extractHandles b\<close>. In insertion order, the lines of \<open>b\<close> are processed after the
  set of \<open>a\<close> is complete.
\<close>

theorem extractHandles_union:
  "set (extractHandles (a @ [LF] @ b)) = set (extractHandles a) \<union> set (extractHandles b) \<and>
   extractHandles (a @ [LF] @ b) = foldl processLine (extractHandles a) (trimmedLines b)"
proof
  show "set (extractHandles (a @ [LF] @ b)) = set (extractHandles a) \<union> set (extractHandles b)"
    by (simp add: set_extractHandles_append_LF)
  show "extractHandles (a @ [LF] @ b) = foldl processLine (extractHandles a) (trimmedLines b)"
    by (simp add: extractHandles_append_LF)
qed


section \<open>Clean input\<close>

lemma handleChar_not_ws: "isHandleChar c \<Longrightarrow> \<not> isWhiteSpace c"
  unfolding char_class_defs by (auto simp: word_le_nat_alt)

lemma splitLines_no_LF: "LF \<notin> set s \<Longrightarrow> splitLines s = [s]"
  by (induction s rule: splitLines.induct) auto

lemma dropWhile_none: "\<forall>x\<in>set xs. \<not> P x \<Longrightarrow> dropWhile P xs = xs"
  by (cases xs) simp_all

lemma trim_no_ws: "\<forall>c\<in>set s. \<not> isWhiteSpace c \<Longrightarrow> trim s = s"
  by (simp add: trim_def dropWhile_none)

lemma isHandle_no_ws: "isHandle h \<Longrightarrow> \<forall>c\<in>set h. \<not> isWhiteSpace c"
  by (auto simp: isHandle_def list_all_iff handleChar_not_ws)

lemma isHandle_nonempty: "isHandle h \<Longrightarrow> h \<noteq> []"
  by (auto simp: isHandle_def)

lemma isHandle_no_LF: "isHandle h \<Longrightarrow> LF \<notin> set h"
  using isHandle_no_ws [of h] by (auto simp: isWhiteSpace_def)

lemma trimmedLines_handle: "isHandle h \<Longrightarrow> trimmedLines h = [h]"
  by (simp add: trimmedLines_def splitLines_no_LF isHandle_no_LF trim_no_ws isHandle_no_ws
        isHandle_nonempty)

lemma trimmedLines_handle_CR: "isHandle h \<Longrightarrow> trimmedLines (h @ [CR]) = [h]"
  by (simp add: trimmedLines_def splitLines_no_LF isHandle_no_LF trim_snoc_ws isWhiteSpace_CR
        trim_no_ws isHandle_no_ws isHandle_nonempty)

lemma lineHandle_handle: "isHandle h \<Longrightarrow> lineHandle h = Some h"
  by (simp add: lineHandle_def cleanHandleToken_def isHandle_def toLowerCase_handleChars
        list_all_iff)

lemma trimmedLines_joinWith:
  "list_all isHandle hs \<Longrightarrow> sep = [LF] \<or> sep = [CR, LF] \<Longrightarrow>
     trimmedLines (joinWith sep hs) = hs"
proof (induction sep hs rule: joinWith.induct)
  case (1 sep)
  show ?case by (simp add: trimmedLines_def trim_def)
next
  case (2 sep x)
  then show ?case by (simp add: trimmedLines_handle)
next
  case (3 sep x y ys)
  from 3 have rest: "trimmedLines (joinWith sep (y # ys)) = y # ys" by simp
  from 3 have x: "isHandle x" by simp
  from "3.prems"(2) show ?case
  proof
    assume "sep = [LF]"
    then show ?thesis
      using trimmedLines_append_LF [of x "joinWith sep (y # ys)"] rest x
      by (simp add: trimmedLines_handle)
  next
    assume "sep = [CR, LF]"
    then show ?thesis
      using trimmedLines_append_LF [of "x @ [CR]" "joinWith sep (y # ys)"] rest x
      by (simp add: trimmedLines_handle_CR)
  qed
qed

text \<open>
  Claim C4. A text with one handle on each line (every line in lower case, of 3 to 30
  code units from \<open>[a-z0-9._]\<close>; the lines joined by LF, or by CR LF) extracts to
  exactly the set of those handles.
\<close>

theorem clean_input_extracts_itself:
  assumes "list_all isHandle hs" and "sep = [LF] \<or> sep = [CR, LF]"
  shows "set (extractHandles (joinWith sep hs)) = set hs"
proof -
  from assms have "trimmedLines (joinWith sep hs) = hs"
    by (rule trimmedLines_joinWith)
  moreover from assms(1) have "\<forall>l\<in>set hs. lineHandle l = Some l"
    by (simp add: list_all_iff lineHandle_handle)
  ultimately show ?thesis
    by (auto simp: set_extractHandles)
qed

theorem clean_input_extracts_itself_witness:
  "list_all isHandle [js ''alice'', js ''bob'', js ''carol_99.x''] \<and>
   set (extractHandles (js ''alice'' @ [LF] @ js ''bob'' @ [LF] @ js ''carol_99.x''))
     = {js ''alice'', js ''bob'', js ''carol_99.x''}"
proof -
  have v: "list_all isHandle [js ''alice'', js ''bob'', js ''carol_99.x'']"
    by (simp add: isHandle_def js_def char_class_defs)
  from clean_input_extracts_itself [OF v, of "[LF]"] v show ?thesis
    by simp
qed


section \<open>The organisation filter touches the displayed lists only\<close>

lemma startsWith_iff: "startsWith s k \<longleftrightarrow> (\<exists>t. s = k @ t)"
  by (induction s k rule: startsWith.induct) auto

lemma includes_js_iff: "includes_js h k \<longleftrightarrow> (\<exists>p s. h = p @ k @ s)"
proof (induction h)
  case Nil
  show ?case by auto
next
  case (Cons c cs)
  have "(\<exists>p s. c # cs = p @ k @ s) \<longleftrightarrow> (\<exists>s. c # cs = k @ s) \<or> (\<exists>p s. cs = p @ k @ s)"
  proof
    assume "\<exists>p s. c # cs = p @ k @ s"
    then obtain p s where e: "c # cs = p @ k @ s" by blast
    show "(\<exists>s. c # cs = k @ s) \<or> (\<exists>p s. cs = p @ k @ s)"
    proof (cases p)
      case Nil
      with e show ?thesis by auto
    next
      case (Cons x p')
      with e have "cs = p' @ k @ s" by simp
      then show ?thesis by blast
    qed
  next
    assume "(\<exists>s. c # cs = k @ s) \<or> (\<exists>p s. cs = p @ k @ s)"
    then show "\<exists>p s. c # cs = p @ k @ s"
    proof
      assume "\<exists>s. c # cs = k @ s"
      then obtain s where "c # cs = [] @ k @ s" by auto
      then show ?thesis by blast
    next
      assume "\<exists>p s. cs = p @ k @ s"
      then obtain p s where "c # cs = (c # p) @ k @ s" by auto
      then show ?thesis by blast
    qed
  qed
  with Cons show ?case by (simp add: startsWith_iff)
qed

lemma looksLikeOrg_iff:
  "looksLikeOrg h \<longleftrightarrow> (\<exists>k \<in> set orgHints. \<exists>p s. h = p @ k @ s)"
  by (simp add: looksLikeOrg_def list_ex_iff includes_js_iff)

lemma club_hint: "js ''club'' \<in> set orgHints"
  by (simp add: orgHints_def)

lemma bookclub99: "looksLikeOrg (js ''bookclub99'')"
proof -
  have "js ''bookclub99'' = js ''book'' @ js ''club'' @ js ''99''"
    by (simp add: js_def)
  with club_hint show ?thesis
    unfolding looksLikeOrg_iff by blast
qed

text \<open>
  Claim C8. \<open>looksLikeOrg\<close> holds of a handle exactly when one of the fixed hints occurs
  in it as a substring; \<open>club\<close> is a hint, so \<open>bookclub99\<close> looks like an organisation,
  is absent from every filtered list when the toggle is on, and the toggle being off
  leaves a list as it is. Of what one rendering computes, the Following and Followers
  sets, the three comparison sets and the two sorted input arrays are the same for both
  states of the toggle; the three displayed arrays with the toggle on are those with the
  toggle off, without the handles that look like organisations.
\<close>

theorem org_filter_frame:
  "(looksLikeOrg h \<longleftrightarrow> (\<exists>k \<in> set orgHints. \<exists>p s. h = p @ k @ s)) \<and>
   js ''club'' \<in> set orgHints \<and>
   looksLikeOrg (js ''bookclub99'') \<and>
   js ''bookclub99'' \<notin> set (filterList True list) \<and>
   filterList False list = list \<and>
   following (App cmp ft fwt True) = following (App cmp ft fwt False) \<and>
   followers (App cmp ft fwt True) = followers (App cmp ft fwt False) \<and>
   nonFollowers (App cmp ft fwt True) = nonFollowers (App cmp ft fwt False) \<and>
   followersOnly (App cmp ft fwt True) = followersOnly (App cmp ft fwt False) \<and>
   mutuals (App cmp ft fwt True) = mutuals (App cmp ft fwt False) \<and>
   followingArr (App cmp ft fwt True) = followingArr (App cmp ft fwt False) \<and>
   followersArr (App cmp ft fwt True) = followersArr (App cmp ft fwt False) \<and>
   nonFollowersArr (App cmp ft fwt True)
     = filter (\<lambda>h. \<not> looksLikeOrg h) (nonFollowersArr (App cmp ft fwt False)) \<and>
   followersOnlyArr (App cmp ft fwt True)
     = filter (\<lambda>h. \<not> looksLikeOrg h) (followersOnlyArr (App cmp ft fwt False)) \<and>
   mutualsArr (App cmp ft fwt True)
     = filter (\<lambda>h. \<not> looksLikeOrg h) (mutualsArr (App cmp ft fwt False))"
  using looksLikeOrg_iff [of h] club_hint bookclub99
  by (simp add: App_def filterList_def Let_def)


section \<open>The CSV export\<close>

lemma length_exportRows:
  "length (exportRows a b c) = Suc (max (length a) (max (length b) (length c)))"
  by (simp add: exportRows_def Let_def)

lemma map_at_or_empty:
  "length a \<le> n \<Longrightarrow> map (at_or_empty a) [0..<n] = a @ replicate (n - length a) []"
  by (rule nth_equalityI) (auto simp: at_or_empty_def nth_append)

lemma column0:
  "map (\<lambda>r. r ! 0) (tl (exportRows a b c))
     = a @ replicate (max (length a) (max (length b) (length c)) - length a) []"
  using map_at_or_empty [of a "max (length a) (max (length b) (length c))"]
  by (simp add: exportRows_def Let_def comp_def)

lemma column1:
  "map (\<lambda>r. r ! 1) (tl (exportRows a b c))
     = b @ replicate (max (length a) (max (length b) (length c)) - length b) []"
  using map_at_or_empty [of b "max (length a) (max (length b) (length c))"]
  by (simp add: exportRows_def Let_def comp_def)

lemma column2:
  "map (\<lambda>r. r ! 2) (tl (exportRows a b c))
     = c @ replicate (max (length a) (max (length b) (length c)) - length c) []"
  using map_at_or_empty [of c "max (length a) (max (length b) (length c))"]
  by (simp add: exportRows_def Let_def comp_def)

lemma row_widths: "list_all (\<lambda>r. length r = 3) (exportRows a b c)"
  by (simp add: exportRows_def Let_def csvHeader_def list_all_iff)

lemma doubleQuotes_others:
  "filter (\<lambda>u. u \<noteq> DQUOTE) (doubleQuotes f) = filter (\<lambda>u. u \<noteq> DQUOTE) f"
  by (induction f) (simp_all add: doubleQuotes_def)

lemma doubleQuotes_quotes:
  "length (filter (\<lambda>u. u = DQUOTE) (doubleQuotes f)) = 2 * length (filter (\<lambda>u. u = DQUOTE) f)"
  by (induction f) (simp_all add: doubleQuotes_def)

lemma example_rows:
  "exportRows [js ''a''] [] [js ''b'', js ''c'']
     = [csvHeader, [js ''a'', [], js ''b''], [[], [], js ''c'']]"
  by (simp add: exportRows_def Let_def at_or_empty_def upt_rec)

lemma example_csv:
  \<open>downloadCSV (exportRows [js ''a''] [] [js ''b'', js ''c''])
     = js ''"you_follow_but_they_dont_follow_you","they_follow_you_but_you_dont_follow","mutuals"''
       @ [LF] @ js ''"a","","b"'' @ [LF] @ js ''"","","c"''\<close>
  unfolding example_rows
  by (simp add: downloadCSV_def csvField_def doubleQuotes_def csvHeader_def js_def)

text \<open>
  Claim C7. From the three displayed arrays, in the order non-followers, followers-only,
  mutuals, the export builds the header row and then as many rows as the longest array
  has entries, each of three fields; the fields of a column are the array followed by
  empty strings. A field is written between double quotes, with every double quote in it
  doubled and every other code unit kept; fields are joined by commas and rows by line
  feeds. For the arrays \<open>[a]\<close>, \<open>[]\<close> and \<open>[b, c]\<close> there are exactly two data rows
  after the header: \<open>"a","","b"\<close> and \<open>"","","c"\<close>.
\<close>

theorem csv_export:
  \<open>length (exportRows nonF fersOnly mut)
     = Suc (max (length nonF) (max (length fersOnly) (length mut))) \<and>
   hd (exportRows nonF fersOnly mut) = csvHeader \<and>
   list_all (\<lambda>r. length r = 3) (exportRows nonF fersOnly mut) \<and>
   map (\<lambda>r. r ! 0) (tl (exportRows nonF fersOnly mut))
     = nonF @ replicate (max (length nonF) (max (length fersOnly) (length mut)) - length nonF) [] \<and>
   map (\<lambda>r. r ! 1) (tl (exportRows nonF fersOnly mut))
     = fersOnly @ replicate (max (length nonF) (max (length fersOnly) (length mut)) - length fersOnly) [] \<and>
   map (\<lambda>r. r ! 2) (tl (exportRows nonF fersOnly mut))
     = mut @ replicate (max (length nonF) (max (length fersOnly) (length mut)) - length mut) [] \<and>
   csvField f = [DQUOTE] @ doubleQuotes f @ [DQUOTE] \<and>
   filter (\<lambda>u. u \<noteq> DQUOTE) (doubleQuotes f) = filter (\<lambda>u. u \<noteq> DQUOTE) f \<and>
   length (filter (\<lambda>u. u = DQUOTE) (doubleQuotes f)) = 2 * length (filter (\<lambda>u. u = DQUOTE) f) \<and>
   downloadCSV rows = joinWith [LF] (map (\<lambda>r. joinWith [COMMA] (map csvField r)) rows) \<and>
   exportRows [js ''a''] [] [js ''b'', js ''c'']
     = [csvHeader, [js ''a'', [], js ''b''], [[], [], js ''c'']] \<and>
   downloadCSV (exportRows [js ''a''] [] [js ''b'', js ''c''])
     = js ''"you_follow_but_they_dont_follow_you","they_follow_you_but_you_dont_follow","mutuals"''
       @ [LF] @ js ''"a","","b"'' @ [LF] @ js ''"","","c"''\<close>
  using length_exportRows [of nonF fersOnly mut] row_widths [of nonF fersOnly mut]
        column0 [of nonF fersOnly mut] column1 [of nonF fersOnly mut]
        column2 [of nonF fersOnly mut]
        doubleQuotes_others [of f] doubleQuotes_quotes [of f] example_rows example_csv
  by (simp add: csvField_def downloadCSV_def exportRows_def [of nonF fersOnly mut] Let_def)

end
